theory Spec2Isabelle
  imports Main "HOL-Library.Char_ord" "HOL-Library.List_Lexorder"
begin

section \<open>Configuration store (class CMVCService, src/src/extension.ts)\<close>

text \<open>
  The interface \<open>CMVCConfig\<close>: three string fields. JavaScript strings are modelled as
  \<open>string\<close>; a string is falsy exactly when it is empty.
\<close>

record CMVCConfig =
  family :: string
  release :: string
  defect :: string

text \<open>
  \<open>context.workspaceState\<close> is the host's key/value store (a Memento). \<open>get(key, default)\<close>
  returns the stored value, or the default when the key is absent; \<open>update(key, value)\<close>
  stores the value under the key. Every value the extension stores is a string.
\<close>

type_synonym memento = "string \<rightharpoonup> string"

definition memento_get :: "memento \<Rightarrow> string \<Rightarrow> string \<Rightarrow> string" where
  "memento_get m k dflt = (case m k of None \<Rightarrow> dflt | Some v \<Rightarrow> v)"

definition memento_update :: "memento \<Rightarrow> string \<Rightarrow> string \<Rightarrow> memento" where
  "memento_update m k v = m(k \<mapsto> v)"

text \<open>The service object: its private \<open>config\<close> and the workspace state of its context.\<close>

record CMVCService =
  config :: CMVCConfig
  workspaceState :: memento

definition loadConfig :: "CMVCService \<Rightarrow> CMVCService" where
  "loadConfig s =
     s\<lparr>config :=
         \<lparr>family = memento_get (workspaceState s) ''cmvc.family'' '''',
          release = memento_get (workspaceState s) ''cmvc.release'' '''',
          defect = memento_get (workspaceState s) ''cmvc.defect'' ''''\<rparr>\<rparr>"

definition saveConfig :: "CMVCService \<Rightarrow> CMVCService" where
  "saveConfig s =
     s\<lparr>workspaceState :=
         memento_update
           (memento_update
              (memento_update (workspaceState s) ''cmvc.family'' (family (config s)))
              ''cmvc.release'' (release (config s)))
           ''cmvc.defect'' (defect (config s))\<rparr>"

text \<open>The constructor: the three fields start empty, then \<open>loadConfig\<close> runs.\<close>

definition new_CMVCService :: "memento \<Rightarrow> CMVCService" where
  "new_CMVCService ws =
     loadConfig \<lparr>config = \<lparr>family = '''', release = '''', defect = ''''\<rparr>, workspaceState = ws\<rparr>"

definition getConfig :: "CMVCService \<Rightarrow> CMVCConfig" where
  "getConfig s = config s"

definition setFamily :: "string \<Rightarrow> CMVCService \<Rightarrow> CMVCService" where
  "setFamily v s = saveConfig (s\<lparr>config := (config s)\<lparr>family := v\<rparr>\<rparr>)"

definition setRelease :: "string \<Rightarrow> CMVCService \<Rightarrow> CMVCService" where
  "setRelease v s = saveConfig (s\<lparr>config := (config s)\<lparr>release := v\<rparr>\<rparr>)"

definition setDefect :: "string \<Rightarrow> CMVCService \<Rightarrow> CMVCService" where
  "setDefect v s = saveConfig (s\<lparr>config := (config s)\<lparr>defect := v\<rparr>\<rparr>)"


section \<open>Command runner (checkin, checkout, view)\<close>

text \<open>
  What the promisified \<open>exec\<close> gives back: the promise resolves with stdout and stderr, or it
  rejects with an error (spawn failure, non-zero exit). The error is kept in the form
  \<open>${error}\<close> renders it.
\<close>

datatype exec_result = Resolved string string | Rejected string

text \<open>
  The host as the command runner sees it: the external process, the two document calls of
  \<open>view\<close> (each may reject, \<open>Some e\<close>) and the input box of the create command
  (\<open>None\<close> is \<open>undefined\<close>, the prompt was dismissed).
\<close>

record host =
  execAsync :: "string \<Rightarrow> exec_result"
  openTextDocument :: "string \<Rightarrow> string \<Rightarrow> string option"
  showTextDocument :: "string \<Rightarrow> string option"
  showInputBox :: "string \<Rightarrow> string \<Rightarrow> string option"



text \<open>Everything an operation does to the outside, in the order it does it.\<close>

datatype effect =
    Exec string
  | ShowErrorMessage string
  | ShowInformationMessage string
  | OpenTextDocument string string
  | ShowTextDocument string bool
  | ShowInputBox string string
  | FilesProviderRefresh

text \<open>
  Node's \<open>path.basename\<close> with one argument, POSIX flavour: trailing slashes are dropped,
  then the part after the last remaining slash is returned.
\<close>

definition basename :: "string \<Rightarrow> string" where
  "basename p =
     rev (takeWhile (\<lambda>c. c \<noteq> CHR ''/'') (dropWhile (\<lambda>c. c = CHR ''/'') (rev p)))"

definition quoted :: "string \<Rightarrow> string" where
  "quoted s = [CHR 0x22] @ s @ [CHR 0x22]"

definition checkin_command :: "CMVCConfig \<Rightarrow> string \<Rightarrow> string" where
  "checkin_command c filePath =
     ''File -checkin '' @ quoted filePath @ '' -defect '' @ quoted (defect c) @
     '' -release '' @ quoted (release c) @ '' -family '' @ quoted (family c)"

definition checkout_command :: "CMVCConfig \<Rightarrow> string \<Rightarrow> string" where
  "checkout_command c filePath =
     ''File -checkout '' @ quoted filePath @ '' -defect '' @ quoted (defect c) @
     '' -release '' @ quoted (release c) @ '' -family '' @ quoted (family c)"

definition view_command :: "CMVCConfig \<Rightarrow> string \<Rightarrow> string" where
  "view_command c filePath =
     ''File -view '' @ quoted filePath @
     '' -release '' @ quoted (release c) @ '' -family '' @ quoted (family c)"

definition checkin :: "host \<Rightarrow> CMVCService \<Rightarrow> string \<Rightarrow> CMVCService \<times> effect list" where
  "checkin h s filePath =
     (if family (config s) = [] \<or> release (config s) = [] \<or> defect (config s) = []
      then (s, [ShowErrorMessage ''Please set Family, Release, and Defect values first.''])
      else
        let command = checkin_command (config s) filePath in
        (s, Exec command #
            (case execAsync h command of
               Resolved out err \<Rightarrow>
                 if err \<noteq> [] then [ShowErrorMessage (''Checkin failed: '' @ err)]
                 else [ShowInformationMessage (''Successfully checked in: '' @ basename filePath)]
             | Rejected e \<Rightarrow> [ShowErrorMessage (''Checkin failed: '' @ e)])))"

definition checkout :: "host \<Rightarrow> CMVCService \<Rightarrow> string \<Rightarrow> CMVCService \<times> effect list" where
  "checkout h s filePath =
     (if family (config s) = [] \<or> release (config s) = [] \<or> defect (config s) = []
      then (s, [ShowErrorMessage ''Please set Family, Release, and Defect values first.''])
      else
        let command = checkout_command (config s) filePath in
        (s, Exec command #
            (case execAsync h command of
               Resolved out err \<Rightarrow>
                 if err \<noteq> [] then [ShowErrorMessage (''Checkout failed: '' @ err)]
                 else [ShowInformationMessage (''Successfully checked out: '' @ basename filePath)]
             | Rejected e \<Rightarrow> [ShowErrorMessage (''Checkout failed: '' @ e)])))"

definition view :: "host \<Rightarrow> CMVCService \<Rightarrow> string \<Rightarrow> CMVCService \<times> effect list" where
  "view h s filePath =
     (if family (config s) = [] \<or> release (config s) = []
      then (s, [ShowErrorMessage ''Please set Family and Release values first.''])
      else
        let command = view_command (config s) filePath in
        (s, Exec command #
            (case execAsync h command of
               Resolved out err \<Rightarrow>
                 if err \<noteq> [] then [ShowErrorMessage (''View failed: '' @ err)]
                 else
                   OpenTextDocument out ''text'' #
                   (case openTextDocument h out ''text'' of
                      Some e \<Rightarrow> [ShowErrorMessage (''View failed: '' @ e)]
                    | None \<Rightarrow>
                        ShowTextDocument out False #
                        (case showTextDocument h out of
                           Some e \<Rightarrow> [ShowErrorMessage (''View failed: '' @ e)]
                         | None \<Rightarrow> []))
             | Rejected e \<Rightarrow> [ShowErrorMessage (''View failed: '' @ e)])))"


section \<open>Tree items\<close>

text \<open>
  The subclasses of \<open>CMVCExplorerItem\<close> as one tagged type, each constructor with the
  arguments of its class constructor: \<open>FileItem label fullPath relativePath\<close>,
  \<open>FolderItem label fullPath\<close>, \<open>ConfigItem label value command\<close>. Only file and folder
  items carry a \<open>resourceUri\<close>; it is kept as the file-system path it was built from
  (\<open>Uri.file(fullPath).fsPath\<close> is read as \<open>fullPath\<close>).
\<close>

datatype CMVCExplorerItem =
    ConfigSectionItem string
  | ConfigItem string string string
  | FileExplorerItem string
  | FileItem string string string
  | FolderItem string string
  | TrackSectionItem string
  | TrackItem string

fun resourceUri :: "CMVCExplorerItem \<Rightarrow> string option" where
  "resourceUri (FileItem label fullPath relativePath) = Some fullPath"
| "resourceUri (FolderItem label fullPath) = Some fullPath"
| "resourceUri (ConfigSectionItem label) = None"
| "resourceUri (ConfigItem label v command) = None"
| "resourceUri (FileExplorerItem label) = None"
| "resourceUri (TrackSectionItem label) = None"
| "resourceUri (TrackItem label) = None"


section \<open>Command handlers registered by activate\<close>

text \<open>
  The handlers receive the selected item, or \<open>undefined\<close> (\<open>None\<close>) when the command is
  run without one. The guard \<open>item && item.resourceUri\<close> passes exactly when there is an
  item and it has a resource URI.
\<close>

definition cmvc_checkin ::
  "host \<Rightarrow> CMVCService \<Rightarrow> CMVCExplorerItem option \<Rightarrow> CMVCService \<times> effect list" where
  "cmvc_checkin h s item =
     (case item of
        None \<Rightarrow> (s, [])
      | Some it \<Rightarrow>
          (case resourceUri it of
             None \<Rightarrow> (s, [])
           | Some fsPath \<Rightarrow> checkin h s fsPath))"

definition cmvc_checkout ::
  "host \<Rightarrow> CMVCService \<Rightarrow> CMVCExplorerItem option \<Rightarrow> CMVCService \<times> effect list" where
  "cmvc_checkout h s item =
     (case item of
        None \<Rightarrow> (s, [])
      | Some it \<Rightarrow>
          (case resourceUri it of
             None \<Rightarrow> (s, [])
           | Some fsPath \<Rightarrow> checkout h s fsPath))"

definition cmvc_view ::
  "host \<Rightarrow> CMVCService \<Rightarrow> CMVCExplorerItem option \<Rightarrow> CMVCService \<times> effect list" where
  "cmvc_view h s item =
     (case item of
        None \<Rightarrow> (s, [])
      | Some it \<Rightarrow>
          (case resourceUri it of
             None \<Rightarrow> (s, [])
           | Some fsPath \<Rightarrow> view h s fsPath))"

definition create_command :: "CMVCConfig \<Rightarrow> string \<Rightarrow> string \<Rightarrow> string" where
  "create_command c fsPath component =
     ''File -create '' @ quoted fsPath @ '' -component '' @ quoted component @
     '' -defect '' @ quoted (defect c) @
     '' -release '' @ quoted (release c) @ '' -family '' @ quoted (family c)"

text \<open>
  The create command. \<open>!component\<close> holds when the prompt was dismissed (\<open>None\<close>) and when
  the empty string was entered.
\<close>

definition cmvc_create ::
  "host \<Rightarrow> CMVCService \<Rightarrow> CMVCExplorerItem option \<Rightarrow> CMVCService \<times> effect list" where
  "cmvc_create h s item =
     (case (case item of None \<Rightarrow> None | Some it \<Rightarrow> resourceUri it) of
        None \<Rightarrow> (s, [ShowErrorMessage ''No file selected for creation.''])
      | Some fsPath \<Rightarrow>
          let lastComponent = memento_get (workspaceState s) ''cmvc.lastComponent'' [] in
          (case showInputBox h ''Enter Component'' lastComponent of
             None \<Rightarrow>
               (s, [ShowInputBox ''Enter Component'' lastComponent,
                    ShowErrorMessage ''Component is required.''])
           | Some component \<Rightarrow>
               if component = []
               then (s, [ShowInputBox ''Enter Component'' lastComponent,
                         ShowErrorMessage ''Component is required.''])
               else
                 let s' = s\<lparr>workspaceState :=
                             memento_update (workspaceState s) ''cmvc.lastComponent'' component\<rparr>;
                     command = create_command (getConfig s') fsPath component
                 in
                 (s', ShowInputBox ''Enter Component'' lastComponent # Exec command #
                      (case execAsync h command of
                         Resolved out err \<Rightarrow>
                           if err \<noteq> [] then [ShowErrorMessage (''Create failed: '' @ err)]
                           else [ShowInformationMessage (''Successfully created: '' @ fsPath),
                                 FilesProviderRefresh]
                       | Rejected err \<Rightarrow> [ShowErrorMessage (''Create failed: '' @ err)]))))"


section \<open>File system and tree providers\<close>

text \<open>
  What the providers read: \<open>fs.readdirSync\<close> and \<open>fs.statSync\<close> (each returns or throws;
  of a stat only \<open>isDirectory()\<close> is used), the first workspace folder
  (\<open>None\<close> when no folder is open), and Node's \<open>path.join\<close> and \<open>path.relative\<close>, which
  are left as parameters.
\<close>

datatype js_error = SystemError string | TypeError

record fs_env =
  readdirSync :: "string \<Rightarrow> js_error + string list"
  statSync :: "string \<Rightarrow> js_error + bool"
  workspaceFolder :: "string option"
  path_join :: "string \<Rightarrow> string \<Rightarrow> string"
  path_relative :: "string \<Rightarrow> string \<Rightarrow> string"

text \<open>The array a listing fills, and what it wrote with \<open>console.error\<close>.\<close>

record tree_out =
  items :: "CMVCExplorerItem list"
  console :: "js_error list"

definition push :: "CMVCExplorerItem \<Rightarrow> tree_out \<Rightarrow> tree_out" where
  "push it st = st\<lparr>items := items st @ [it]\<rparr>"

definition console_error :: "js_error \<Rightarrow> tree_out \<Rightarrow> tree_out" where
  "console_error err st = st\<lparr>console := console st @ [err]\<rparr>"

definition startsWith :: "string \<Rightarrow> string \<Rightarrow> bool" where
  "startsWith s p = (take (length p) s = p)"

text \<open>The test both providers apply to a directory's name before listing it.\<close>

definition listed_dir :: "string \<Rightarrow> bool" where
  "listed_dir file = (file \<noteq> ''node_modules'' \<and> file \<noteq> ''.git'' \<and> \<not> startsWith file ''.'')"

subsection \<open>The lazy provider: CMVCFilesProvider (src/src/extension.ts)\<close>

text \<open>
  The first loop of \<open>getDirectoryContents\<close>: every entry is stat'ed and put into
  \<open>directories\<close> or \<open>filesList\<close>; a stat that throws leaves the loop (\<open>Inl\<close>).
\<close>

fun classify ::
  "fs_env \<Rightarrow> string \<Rightarrow> string list \<Rightarrow> string list \<times> string list
     \<Rightarrow> js_error + string list \<times> string list" where
  "classify e dirPath [] (directories, filesList) = Inr (directories, filesList)"
| "classify e dirPath (file # rest) (directories, filesList) =
     (case statSync e (path_join e dirPath file) of
        Inl err \<Rightarrow> Inl err
      | Inr isDirectory \<Rightarrow>
          if isDirectory
          then (if listed_dir file
                then classify e dirPath rest (directories @ [file], filesList)
                else classify e dirPath rest (directories, filesList))
          else classify e dirPath rest (directories, filesList @ [file]))"

text \<open>The second loop: one folder item per directory name.\<close>

fun push_folders :: "fs_env \<Rightarrow> string \<Rightarrow> string list \<Rightarrow> tree_out \<Rightarrow> tree_out" where
  "push_folders e dirPath [] st = st"
| "push_folders e dirPath (dir # rest) st =
     push_folders e dirPath rest (push (FolderItem dir (path_join e dirPath dir)) st)"

text \<open>
  The last loop: one file item per name. \<open>workspaceFolders![0]\<close> throws a TypeError when
  no folder is open; the surrounding \<open>catch\<close> logs it.
\<close>

fun push_files :: "fs_env \<Rightarrow> string \<Rightarrow> string list \<Rightarrow> tree_out \<Rightarrow> tree_out" where
  "push_files e dirPath [] st = st"
| "push_files e dirPath (file # rest) st =
     (case workspaceFolder e of
        None \<Rightarrow> console_error TypeError st
      | Some root \<Rightarrow>
          push_files e dirPath rest
            (push (FileItem file (path_join e dirPath file)
                     (path_relative e root (path_join e dirPath file))) st))"

definition getDirectoryContents :: "fs_env \<Rightarrow> string \<Rightarrow> tree_out \<Rightarrow> tree_out" where
  "getDirectoryContents e dirPath st =
     (case readdirSync e dirPath of
        Inl err \<Rightarrow> console_error err st
      | Inr files \<Rightarrow>
          (case classify e dirPath files ([], []) of
             Inl err \<Rightarrow> console_error err st
           | Inr (directories, filesList) \<Rightarrow>
               push_files e dirPath (sort filesList)
                 (push_folders e dirPath (sort directories) st)))"

definition getWorkspaceFiles :: "fs_env \<Rightarrow> tree_out" where
  "getWorkspaceFiles e =
     (case workspaceFolder e of
        None \<Rightarrow> \<lparr>items = [], console = []\<rparr>
      | Some root \<Rightarrow> getDirectoryContents e root \<lparr>items = [], console = []\<rparr>)"

definition getFolderContents :: "fs_env \<Rightarrow> string \<Rightarrow> tree_out" where
  "getFolderContents e folderPath = getDirectoryContents e folderPath \<lparr>items = [], console = []\<rparr>"

fun getChildren :: "fs_env \<Rightarrow> CMVCExplorerItem option \<Rightarrow> tree_out" where
  "getChildren e None = getWorkspaceFiles e"
| "getChildren e (Some (FolderItem label fullPath)) = getFolderContents e fullPath"
| "getChildren e (Some other) = \<lparr>items = [], console = []\<rparr>"

subsection \<open>The eager provider: CMVCExplorerProvider (src/unnamed/part_000)\<close>

text \<open>
  \<open>getFilesRecursively\<close> calls itself for every listed subdirectory. The first argument
  bounds the depth of nested calls; \<open>None\<close> means the bound was reached. The loop over
  the entries of one directory is the second function; a stat that throws ends it, and
  the \<open>catch\<close> of that directory's call logs the error.
\<close>

fun getFilesRecursively ::
  "nat \<Rightarrow> fs_env \<Rightarrow> string \<Rightarrow> tree_out \<Rightarrow> string \<Rightarrow> tree_out option"
and getFilesRecursively_loop ::
  "nat \<Rightarrow> fs_env \<Rightarrow> string \<Rightarrow> string list \<Rightarrow> tree_out \<Rightarrow> string \<Rightarrow> tree_out option"
where
  "getFilesRecursively 0 e dirPath st rootPath = None"
| "getFilesRecursively (Suc n) e dirPath st rootPath =
     (case readdirSync e dirPath of
        Inl err \<Rightarrow> Some (console_error err st)
      | Inr files \<Rightarrow> getFilesRecursively_loop n e dirPath files st rootPath)"
| "getFilesRecursively_loop n e dirPath [] st rootPath = Some st"
| "getFilesRecursively_loop n e dirPath (file # rest) st rootPath =
     (case statSync e (path_join e dirPath file) of
        Inl err \<Rightarrow> Some (console_error err st)
      | Inr isDirectory \<Rightarrow>
          if isDirectory
          then (if listed_dir file
                then (case getFilesRecursively n e (path_join e dirPath file)
                             (push (FolderItem file (path_join e dirPath file)) st) rootPath of
                        None \<Rightarrow> None
                      | Some st' \<Rightarrow> getFilesRecursively_loop n e dirPath rest st' rootPath)
                else getFilesRecursively_loop n e dirPath rest st rootPath)
          else getFilesRecursively_loop n e dirPath rest
                 (push (FileItem file (path_join e dirPath file)
                          (path_relative e rootPath (path_join e dirPath file))) st)
                 rootPath)"

definition getFiles :: "nat \<Rightarrow> fs_env \<Rightarrow> tree_out option" where
  "getFiles n e =
     (case workspaceFolder e of
        None \<Rightarrow> Some \<lparr>items = [], console = []\<rparr>
      | Some root \<Rightarrow> getFilesRecursively n e root \<lparr>items = [], console = []\<rparr> root)"


section \<open>Concrete hosts and services used to run the model\<close>

definition demo_host :: host where
  "demo_host =
     \<lparr>execAsync = (\<lambda>command. Resolved ''contents'' []),
      openTextDocument = (\<lambda>content language. None),
      showTextDocument = (\<lambda>content. None),
      showInputBox = (\<lambda>prompt v. Some ''comp'')\<rparr>"




definition demo_service :: CMVCService where
  "demo_service =
     \<lparr>config = \<lparr>family = ''F1'', release = ''R1'', defect = ''D1''\<rparr>,
      workspaceState = Map.empty\<rparr>"

text \<open>
  A workspace /ws with two listed directories (src, and lib, which cannot be read), two
  directories that are never listed (node_modules, .git), and three files, one of them
  dot-prefixed. Paths are joined with a slash.
\<close>

definition demo_fs :: fs_env where
  "demo_fs =
     \<lparr>readdirSync = (\<lambda>p.
        if p = ''/ws''
        then Inr [''b.txt'', ''src'', ''.env'', ''node_modules'', ''.git'', ''a.txt'', ''lib'']
        else if p = ''/ws/src'' then Inr [''main.ts'']
        else if p = ''/ws/node_modules'' then Inr [''pkg'']
        else if p = ''/ws/lib'' then Inl (SystemError ''EACCES'')
        else Inl (SystemError ''ENOENT'')),
      statSync = (\<lambda>p.
        if p = ''/ws/src'' \<or> p = ''/ws/lib'' \<or> p = ''/ws/node_modules'' \<or> p = ''/ws/.git''
           \<or> p = ''/ws/node_modules/pkg''
        then Inr True
        else if p = ''/ws/b.txt'' \<or> p = ''/ws/.env'' \<or> p = ''/ws/a.txt''
                \<or> p = ''/ws/src/main.ts''
        then Inr False
        else Inl (SystemError ''ENOENT'')),
      workspaceFolder = Some ''/ws'',
      path_join = (\<lambda>dir file. dir @ ''/'' @ file),
      path_relative = (\<lambda>from to. drop (length from + 1) to)\<rparr>"

text \<open>A workspace whose second entry cannot be stat'ed (a dangling link).\<close>

definition dangling_fs :: fs_env where
  "dangling_fs =
     \<lparr>readdirSync = (\<lambda>p.
        if p = ''/ws'' then Inr [''a.txt'', ''gone'']
        else Inl (SystemError ''ENOENT'')),
      statSync = (\<lambda>p.
        if p = ''/ws/a.txt'' then Inr False
        else Inl (SystemError ''ENOENT'')),
      workspaceFolder = Some ''/ws'',
      path_join = (\<lambda>dir file. dir @ ''/'' @ file),
      path_relative = (\<lambda>from to. drop (length from + 1) to)\<rparr>"


section \<open>Notions used to state the properties of the tree providers\<close>

text \<open>The nodes the two providers make for the entry \<open>name\<close> of the directory \<open>dirPath\<close>.\<close>

definition folder_node :: "fs_env \<Rightarrow> string \<Rightarrow> string \<Rightarrow> CMVCExplorerItem" where
  "folder_node e dirPath name = FolderItem name (path_join e dirPath name)"

definition file_node :: "fs_env \<Rightarrow> string \<Rightarrow> string \<Rightarrow> string \<Rightarrow> CMVCExplorerItem" where
  "file_node e root dirPath name =
     FileItem name (path_join e dirPath name) (path_relative e root (path_join e dirPath name))"

definition is_dir :: "fs_env \<Rightarrow> string \<Rightarrow> string \<Rightarrow> bool" where
  "is_dir e dirPath name = (statSync e (path_join e dirPath name) = Inr True)"

definition is_file :: "fs_env \<Rightarrow> string \<Rightarrow> string \<Rightarrow> bool" where
  "is_file e dirPath name = (statSync e (path_join e dirPath name) = Inr False)"

definition stat_ok :: "fs_env \<Rightarrow> string \<Rightarrow> string \<Rightarrow> bool" where
  "stat_ok e dirPath name = (is_dir e dirPath name \<or> is_file e dirPath name)"

text \<open>
  The nodes the host can reach in the lazy provider: the root listing, and the children
  of every node reached (only folder nodes have any).
\<close>

inductive_set lazy_nodes :: "fs_env \<Rightarrow> CMVCExplorerItem set" for e :: fs_env where
  root: "it \<in> set (items (getChildren e None)) \<Longrightarrow> it \<in> lazy_nodes e"
| child: "parent \<in> lazy_nodes e \<Longrightarrow> it \<in> set (items (getChildren e (Some parent)))
          \<Longrightarrow> it \<in> lazy_nodes e"

text \<open>The same, started at the folder \<open>dirPath\<close> instead of the workspace root.\<close>

inductive_set lazy_from :: "fs_env \<Rightarrow> string \<Rightarrow> CMVCExplorerItem set"
  for e :: fs_env and dirPath :: string where
  here: "it \<in> set (items (getFolderContents e dirPath)) \<Longrightarrow> it \<in> lazy_from e dirPath"
| deeper: "FolderItem label p \<in> lazy_from e dirPath
           \<Longrightarrow> it \<in> set (items (getFolderContents e p)) \<Longrightarrow> it \<in> lazy_from e dirPath"

text \<open>
  What the entry \<open>f\<close> of a directory contributes to the lazy tree: its own node and,
  for a listed directory, everything reached from it.
\<close>

definition entry_nodes :: "fs_env \<Rightarrow> string \<Rightarrow> string \<Rightarrow> string \<Rightarrow> CMVCExplorerItem set" where
  "entry_nodes e root dirPath f =
     (if is_dir e dirPath f
      then (if listed_dir f
            then insert (folder_node e dirPath f) (lazy_from e (path_join e dirPath f))
            else {})
      else {file_node e root dirPath f})"

text \<open>
  \<open>readable_within n e dirPath\<close>: below \<open>dirPath\<close>, following listed directories only, every
  entry a readable directory holds can be stat'ed, and listed directories nest at most
  \<open>n\<close> deep. A directory that cannot be read has nothing below it.
\<close>

fun readable_within :: "nat \<Rightarrow> fs_env \<Rightarrow> string \<Rightarrow> bool" where
  "readable_within n e dirPath =
     (case readdirSync e dirPath of
        Inl err \<Rightarrow> True
      | Inr files \<Rightarrow>
          list_all (\<lambda>file.
            case statSync e (path_join e dirPath file) of
              Inl err \<Rightarrow> False
            | Inr isDirectory \<Rightarrow>
                if isDirectory \<and> listed_dir file
                then (case n of 0 \<Rightarrow> False
                      | Suc m \<Rightarrow> readable_within m e (path_join e dirPath file))
                else True) files)"

declare readable_within.simps [simp del]

definition readable_tree :: "nat \<Rightarrow> fs_env \<Rightarrow> bool" where
  "readable_tree n e =
     (case workspaceFolder e of None \<Rightarrow> True | Some root \<Rightarrow> readable_within n e root)"


section \<open>Properties of the configuration store and the command runner\<close>

text \<open>
  C1. With any of family, release, defect empty, \<open>checkin\<close> and \<open>checkout\<close> show the
  error message and do nothing else; with family or release empty, so does \<open>view\<close>. No
  process is run (the effect list holds the message only) and the service is returned as
  it was.
\<close>

theorem missing_config_aborts:
  "(family (config s) = [] \<or> release (config s) = [] \<or> defect (config s) = [] \<longrightarrow>
      checkin h s filePath =
        (s, [ShowErrorMessage ''Please set Family, Release, and Defect values first.'']) \<and>
      checkout h s filePath =
        (s, [ShowErrorMessage ''Please set Family, Release, and Defect values first.''])) \<and>
   (family (config s) = [] \<or> release (config s) = [] \<longrightarrow>
      view h s filePath = (s, [ShowErrorMessage ''Please set Family and Release values first.'']))"
  by (simp add: checkin_def checkout_def view_def)

theorem missing_config_aborts_witness:
  "checkin demo_host (new_CMVCService Map.empty) ''/ws/a.txt'' =
     (new_CMVCService Map.empty,
      [ShowErrorMessage ''Please set Family, Release, and Defect values first.'']) \<and>
   checkout demo_host (new_CMVCService Map.empty) ''/ws/a.txt'' =
     (new_CMVCService Map.empty,
      [ShowErrorMessage ''Please set Family, Release, and Defect values first.'']) \<and>
   view demo_host (new_CMVCService Map.empty) ''/ws/a.txt'' =
     (new_CMVCService Map.empty, [ShowErrorMessage ''Please set Family and Release values first.''])"
proof -
  have h: "family (config (new_CMVCService Map.empty)) = []"
    by (simp add: new_CMVCService_def loadConfig_def memento_get_def)
  show ?thesis
    using h missing_config_aborts [of "new_CMVCService Map.empty" demo_host "''/ws/a.txt''"]
    by blast
qed



subsection \<open>What the three operations report\<close>











subsection \<open>The configuration store\<close>

text \<open>
  C5. After a setter has stored \<open>v\<close>, a service built anew from the workspace state
  (and likewise a call of \<open>loadConfig\<close>) has \<open>v\<close> in that field: the value went
  through the keys cmvc.family, cmvc.release, cmvc.defect.
\<close>

theorem config_roundtrip:
  "family (config (new_CMVCService (workspaceState (setFamily v s)))) = v \<and>
   release (config (new_CMVCService (workspaceState (setRelease v s)))) = v \<and>
   defect (config (new_CMVCService (workspaceState (setDefect v s)))) = v \<and>
   family (config (loadConfig (setFamily v s))) = v \<and>
   release (config (loadConfig (setRelease v s))) = v \<and>
   defect (config (loadConfig (setDefect v s))) = v"
  by (simp add: new_CMVCService_def loadConfig_def setFamily_def setRelease_def setDefect_def
      saveConfig_def memento_get_def memento_update_def)

theorem config_roundtrip_witness:
  "family (config (new_CMVCService (workspaceState (setFamily ''F2'' demo_service)))) = ''F2'' \<and>
   release (config (new_CMVCService (workspaceState (setRelease [] demo_service)))) = [] \<and>
   defect (config (new_CMVCService (workspaceState (setDefect ''D9'' demo_service)))) = ''D9''"
  using config_roundtrip [of "''F2''" demo_service] config_roundtrip [of "[]" demo_service]
    config_roundtrip [of "''D9''" demo_service]
  by blast

text \<open>
  C6. Each setter makes \<open>getConfig\<close> return the new value in its own field and the old
  values in the other two.
\<close>

theorem setters_frame:
  "family (getConfig (setFamily v s)) = v \<and>
   release (getConfig (setFamily v s)) = release (getConfig s) \<and>
   defect (getConfig (setFamily v s)) = defect (getConfig s) \<and>
   family (getConfig (setRelease v s)) = family (getConfig s) \<and>
   release (getConfig (setRelease v s)) = v \<and>
   defect (getConfig (setRelease v s)) = defect (getConfig s) \<and>
   family (getConfig (setDefect v s)) = family (getConfig s) \<and>
   release (getConfig (setDefect v s)) = release (getConfig s) \<and>
   defect (getConfig (setDefect v s)) = v"
  by (simp add: getConfig_def setFamily_def setRelease_def setDefect_def saveConfig_def)

theorem setters_frame_witness:
  "getConfig (setFamily ''F2'' demo_service) = \<lparr>family = ''F2'', release = ''R1'', defect = ''D1''\<rparr> \<and>
   getConfig (setRelease ''R2'' demo_service) = \<lparr>family = ''F1'', release = ''R2'', defect = ''D1''\<rparr> \<and>
   getConfig (setDefect ''D2'' demo_service) = \<lparr>family = ''F1'', release = ''R1'', defect = ''D2''\<rparr>"
proof -
  have c: "getConfig demo_service = \<lparr>family = ''F1'', release = ''R1'', defect = ''D1''\<rparr>"
    by (simp add: getConfig_def demo_service_def)
  show ?thesis
    using c setters_frame [of "''F2''" demo_service] setters_frame [of "''R2''" demo_service]
      setters_frame [of "''D2''" demo_service]
    by (simp add: CMVCConfig.equality)
qed

text \<open>
  C9. The create command, for an item that has a resource URI, never looks at the three
  config fields: once the prompt returns a non-empty component, the command
  \<open>File -create\<close> is built from the config as it is and run; with all three fields
  empty the command ends in \<^verbatim>\<open>-defect "" -release "" -family ""\<close>. For such an item the
  process is run exactly when the prompt returns a non-empty component.
\<close>

theorem create_skips_config_check:
  assumes "resourceUri it = Some fsPath"
    and "lastComponent = memento_get (workspaceState s) ''cmvc.lastComponent'' []"
  shows
   \<open>(showInputBox h ''Enter Component'' lastComponent = Some component \<and> component \<noteq> [] \<longrightarrow>
      (\<exists>rest. snd (cmvc_create h s (Some it)) =
         ShowInputBox ''Enter Component'' lastComponent #
         Exec (create_command (config s) fsPath component) # rest) \<and>
      (family (config s) = [] \<and> release (config s) = [] \<and> defect (config s) = [] \<longrightarrow>
         create_command (config s) fsPath component =
           ''File -create "'' @ fsPath @ ''" -component "'' @ component @
           ''" -defect "" -release "" -family ""'')) \<and>
    ((\<exists>command. Exec command \<in> set (snd (cmvc_create h s (Some it)))) \<longleftrightarrow>
       (\<exists>component. showInputBox h ''Enter Component'' lastComponent = Some component \<and>
          component \<noteq> []))\<close>
  using assms
  by (auto simp add: cmvc_create_def Let_def getConfig_def create_command_def quoted_def
      split: option.splits exec_result.splits)

theorem create_skips_config_check_witness:
  \<open>Exec ''File -create "/ws/a.txt" -component "comp" -defect "" -release "" -family ""''
     \<in> set (snd (cmvc_create demo_host (new_CMVCService Map.empty)
                   (Some (FileItem ''a.txt'' ''/ws/a.txt'' ''a.txt''))))\<close>
proof -
  have u: "resourceUri (FileItem ''a.txt'' ''/ws/a.txt'' ''a.txt'') = Some ''/ws/a.txt''"
    by simp
  have l: "[] = memento_get (workspaceState (new_CMVCService Map.empty)) ''cmvc.lastComponent'' []"
    by (simp add: new_CMVCService_def loadConfig_def memento_get_def)
  have p: "showInputBox demo_host ''Enter Component'' [] = Some ''comp'' \<and> ''comp'' \<noteq> []"
    by (simp add: demo_host_def)
  have c: "family (config (new_CMVCService Map.empty)) = [] \<and>
           release (config (new_CMVCService Map.empty)) = [] \<and>
           defect (config (new_CMVCService Map.empty)) = []"
    by (simp add: new_CMVCService_def loadConfig_def memento_get_def)
  show ?thesis
    using p c create_skips_config_check [OF u l, of demo_host "''comp''"]
    by auto
qed

text \<open>
  C10. Called with no item, or with an item that has no resource URI, the handlers of
  cmvc.checkin, cmvc.checkout and cmvc.view return with no effect at all: no service
  operation, no process, no message, and the service unchanged.
\<close>

theorem handlers_ignore_missing_item:
  "cmvc_checkin h s None = (s, []) \<and>
   cmvc_checkout h s None = (s, []) \<and>
   cmvc_view h s None = (s, []) \<and>
   (resourceUri it = None \<longrightarrow>
      cmvc_checkin h s (Some it) = (s, []) \<and>
      cmvc_checkout h s (Some it) = (s, []) \<and>
      cmvc_view h s (Some it) = (s, []))"
  by (simp add: cmvc_checkin_def cmvc_checkout_def cmvc_view_def)

theorem handlers_ignore_missing_item_witness:
  "cmvc_checkin demo_host demo_service (Some (TrackItem ''Track support in the future'')) =
     (demo_service, []) \<and>
   cmvc_checkout demo_host demo_service (Some (TrackItem ''Track support in the future'')) =
     (demo_service, []) \<and>
   cmvc_view demo_host demo_service (Some (TrackItem ''Track support in the future'')) =
     (demo_service, []) \<and>
   cmvc_checkin demo_host demo_service None = (demo_service, [])"
proof -
  have u: "resourceUri (TrackItem ''Track support in the future'') = None"
    by simp
  show ?thesis
    using u handlers_ignore_missing_item
            [of demo_host demo_service "TrackItem ''Track support in the future''"]
    by blast
qed


section \<open>Properties of the tree providers\<close>

subsection \<open>The loops of the lazy listing\<close>

lemma items_push [simp]: "items (push it st) = items st @ [it]"
  by (simp add: push_def)

lemma console_push [simp]: "console (push it st) = console st"
  by (simp add: push_def)

lemma items_console_error [simp]: "items (console_error err st) = items st"
  by (simp add: console_error_def)

lemma console_console_error [simp]: "console (console_error err st) = console st @ [err]"
  by (simp add: console_error_def)

lemma classify_all_stat_ok:
  "\<forall>f \<in> set files. stat_ok e dirPath f \<Longrightarrow>
   classify e dirPath files (ds, fs) =
     Inr (ds @ filter (\<lambda>f. is_dir e dirPath f \<and> listed_dir f) files,
          fs @ filter (is_file e dirPath) files)"
proof (induction files arbitrary: ds fs)
  case Nil
  then show ?case by simp
next
  case (Cons f files)
  from Cons.prems have rest: "\<forall>f \<in> set files. stat_ok e dirPath f" by simp
  from Cons.prems have "stat_ok e dirPath f" by simp
  then consider (isdir) "statSync e (path_join e dirPath f) = Inr True"
    | (isfile) "statSync e (path_join e dirPath f) = Inr False"
    by (auto simp: stat_ok_def is_dir_def is_file_def)
  then show ?case
  proof cases
    case isdir
    then show ?thesis
      using Cons.IH [OF rest] by (simp add: is_dir_def is_file_def)
  next
    case isfile
    then show ?thesis
      using Cons.IH [OF rest] by (simp add: is_dir_def is_file_def)
  qed
qed

lemma classify_stat_fails:
  "\<not> (\<forall>f \<in> set files. stat_ok e dirPath f) \<Longrightarrow> \<exists>err. classify e dirPath files acc = Inl err"
proof (induction files arbitrary: acc)
  case Nil
  then show ?case by simp
next
  case (Cons f files)
  obtain ds fs where acc: "acc = (ds, fs)" by (cases acc)
  show ?case
  proof (cases "statSync e (path_join e dirPath f)")
    case (Inl err)
    then show ?thesis by (simp add: acc)
  next
    case (Inr b)
    then have "stat_ok e dirPath f"
      by (cases b) (simp_all add: stat_ok_def is_dir_def is_file_def)
    with Cons.prems have "\<not> (\<forall>f \<in> set files. stat_ok e dirPath f)" by simp
    from Cons.IH [OF this] show ?thesis
      using Inr by (simp add: acc)
  qed
qed

lemma items_push_folders:
  "items (push_folders e dirPath ds st) = items st @ map (folder_node e dirPath) ds"
  by (induction ds arbitrary: st) (simp_all add: folder_node_def)

lemma console_push_folders: "console (push_folders e dirPath ds st) = console st"
  by (induction ds arbitrary: st) simp_all

lemma items_push_files:
  "workspaceFolder e = Some root \<Longrightarrow>
   items (push_files e dirPath fs st) = items st @ map (file_node e root dirPath) fs"
  by (induction fs arbitrary: st) (simp_all add: file_node_def)

lemma console_push_files:
  "workspaceFolder e = Some root \<Longrightarrow> console (push_files e dirPath fs st) = console st"
  by (induction fs arbitrary: st) simp_all

lemma items_getDirectoryContents:
  assumes "readdirSync e dirPath = Inr names"
    and "\<forall>f \<in> set names. stat_ok e dirPath f"
    and "workspaceFolder e = Some root"
  shows "items (getDirectoryContents e dirPath st) =
           items st @
           map (folder_node e dirPath) (sort (filter (\<lambda>f. is_dir e dirPath f \<and> listed_dir f) names)) @
           map (file_node e root dirPath) (sort (filter (is_file e dirPath) names))"
  using assms classify_all_stat_ok [OF assms(2), of "[]" "[]"]
  by (simp add: getDirectoryContents_def items_push_files items_push_folders)

lemma getDirectoryContents_stat_fails:
  assumes "readdirSync e dirPath = Inr names"
    and "\<not> (\<forall>f \<in> set names. stat_ok e dirPath f)"
  shows "items (getDirectoryContents e dirPath st) = items st"
  using assms classify_stat_fails [OF assms(2), of "([], [])"]
  by (auto simp add: getDirectoryContents_def)

lemma getDirectoryContents_read_fails:
  "readdirSync e dirPath = Inl err \<Longrightarrow> getDirectoryContents e dirPath st = console_error err st"
  by (simp add: getDirectoryContents_def)

subsection \<open>Folder nodes of the eager list\<close>

lemma eager_folders_listed:
  "(getFilesRecursively n e dirPath st rootPath = Some st' \<longrightarrow>
      (\<forall>label p. FolderItem label p \<in> set (items st') \<longrightarrow>
         FolderItem label p \<in> set (items st) \<or> listed_dir label))"
  "(getFilesRecursively_loop n e dirPath files st rootPath = Some st' \<longrightarrow>
      (\<forall>label p. FolderItem label p \<in> set (items st') \<longrightarrow>
         FolderItem label p \<in> set (items st) \<or> listed_dir label))"
proof (induction n e dirPath st rootPath and n e dirPath files st rootPath
    arbitrary: st' and st'
    rule: getFilesRecursively_getFilesRecursively_loop.induct)
  case (1 e dirPath st rootPath)
  then show ?case by simp
next
  case (2 n e dirPath st rootPath)
  then show ?case by (auto split: sum.splits)
next
  case (3 n e dirPath st rootPath)
  then show ?case by simp
next
  case (4 n e dirPath name rest st rootPath)
  show ?case
  proof (cases "statSync e (path_join e dirPath name)")
    case (Inl err)
    then show ?thesis by auto
  next
    case (Inr isDirectory)
    show ?thesis
    proof (cases "isDirectory")
      case False
      with Inr 4(4) [of isDirectory st'] show ?thesis by auto
    next
      case True
      show ?thesis
      proof (cases "listed_dir name")
        case False
        with True Inr 4(3) [of isDirectory st'] show ?thesis by auto
      next
        case listed: True
        show ?thesis
        proof (cases "getFilesRecursively n e (path_join e dirPath name)
                        (push (FolderItem name (path_join e dirPath name)) st) rootPath")
          case None
          with True Inr listed show ?thesis by simp
        next
          case (Some st1)
          from 4(1) [OF Inr True listed, of st1] Some
          have a: "\<forall>label p. FolderItem label p \<in> set (items st1) \<longrightarrow>
                     FolderItem label p \<in> set (items st) \<or> listed_dir label"
            using listed by auto
          from 4(2) [OF Inr True listed Some, of st'] 
          have b: "getFilesRecursively_loop n e dirPath rest st1 rootPath = Some st' \<longrightarrow>
                   (\<forall>label p. FolderItem label p \<in> set (items st') \<longrightarrow>
                     FolderItem label p \<in> set (items st1) \<or> listed_dir label)" .
          show ?thesis
            using a b True Inr listed Some by auto
        qed
      qed
    qed
  qed
qed

lemma items_push_files_no_workspace:
  "workspaceFolder e = None \<Longrightarrow> items (push_files e dirPath fs st) = items st"
  by (cases fs) simp_all

lemma lazy_folders_listed:
  assumes "FolderItem label p \<in> set (items (getDirectoryContents e dirPath st))"
  shows "FolderItem label p \<in> set (items st) \<or> listed_dir label"
proof (cases "readdirSync e dirPath")
  case (Inl err)
  with assms show ?thesis by (simp add: getDirectoryContents_read_fails)
next
  case (Inr names)
  show ?thesis
  proof (cases "\<forall>f \<in> set names. stat_ok e dirPath f")
    case False
    with assms Inr show ?thesis by (simp add: getDirectoryContents_stat_fails)
  next
    case True
    have c: "classify e dirPath names ([], []) =
               Inr (filter (\<lambda>f. is_dir e dirPath f \<and> listed_dir f) names,
                    filter (is_file e dirPath) names)"
      using classify_all_stat_ok [OF True, of "[]" "[]"] by simp
    show ?thesis
    proof (cases "workspaceFolder e")
      case None
      with assms Inr c show ?thesis
        by (auto simp add: getDirectoryContents_def items_push_files_no_workspace
            items_push_folders folder_node_def)
    next
      case (Some root)
      with assms Inr c show ?thesis
        by (auto simp add: getDirectoryContents_def items_push_files items_push_folders
            folder_node_def file_node_def)
    qed
  qed
qed

subsection \<open>The two providers on the example workspaces\<close>

lemma getChildren_demo_fs:
  "items (getChildren demo_fs None) =
     [FolderItem ''lib'' ''/ws/lib'', FolderItem ''src'' ''/ws/src'',
      FileItem ''.env'' ''/ws/.env'' ''.env'',
      FileItem ''a.txt'' ''/ws/a.txt'' ''a.txt'',
      FileItem ''b.txt'' ''/ws/b.txt'' ''b.txt'']"
  by (simp add: getWorkspaceFiles_def getDirectoryContents_def demo_fs_def listed_dir_def
      startsWith_def push_def)

lemma getFiles_demo_fs:
  "getFiles 2 demo_fs =
     Some \<lparr>items =
       [FileItem ''b.txt'' ''/ws/b.txt'' ''b.txt'',
        FolderItem ''src'' ''/ws/src'',
        FileItem ''main.ts'' ''/ws/src/main.ts'' ''src/main.ts'',
        FileItem ''.env'' ''/ws/.env'' ''.env'',
        FileItem ''a.txt'' ''/ws/a.txt'' ''a.txt'',
        FolderItem ''lib'' ''/ws/lib''],
       console = [SystemError ''EACCES'']\<rparr>"
  by (simp add: getFiles_def demo_fs_def listed_dir_def startsWith_def push_def
      console_error_def numeral_2_eq_2)

subsection \<open>Directories that cannot be read\<close>

text \<open>
  C7. When reading a directory fails, the listing of that directory adds no item, the
  error is written to the console, and the call returns: the lazy provider returns an
  empty list for the folder (and for the root), the eager call returns its accumulator
  with the error logged, and the loop of the parent directory goes on with the entries
  that follow.
\<close>

theorem unreadable_directory_lists_nothing:
  assumes "readdirSync e dirPath = Inl err"
  shows
   "getDirectoryContents e dirPath st = console_error err st \<and>
    getChildren e (Some (FolderItem label dirPath)) = \<lparr>items = [], console = [err]\<rparr> \<and>
    (workspaceFolder e = Some dirPath \<longrightarrow> getChildren e None = \<lparr>items = [], console = [err]\<rparr>) \<and>
    getFilesRecursively (Suc n) e dirPath st rootPath = Some (console_error err st) \<and>
    (statSync e dirPath = Inr True \<and> listed_dir name \<and> path_join e parent name = dirPath \<longrightarrow>
       getFilesRecursively_loop (Suc n) e parent (name # rest) st rootPath =
         getFilesRecursively_loop (Suc n) e parent rest
           (console_error err (push (FolderItem name dirPath) st)) rootPath)"
  using assms
  by (auto simp add: getDirectoryContents_def getFolderContents_def getWorkspaceFiles_def
      console_error_def)

theorem unreadable_directory_lists_nothing_witness:
  "getChildren demo_fs (Some (FolderItem ''lib'' ''/ws/lib'')) =
     \<lparr>items = [], console = [SystemError ''EACCES'']\<rparr> \<and>
   getFilesRecursively (Suc 0) demo_fs ''/ws/lib'' \<lparr>items = [], console = []\<rparr> ''/ws'' =
     Some \<lparr>items = [], console = [SystemError ''EACCES'']\<rparr> \<and>
   getFilesRecursively_loop (Suc 0) demo_fs ''/ws'' [''lib'', ''a.txt''] \<lparr>items = [], console = []\<rparr> ''/ws'' =
     getFilesRecursively_loop (Suc 0) demo_fs ''/ws'' [''a.txt'']
       \<lparr>items = [FolderItem ''lib'' ''/ws/lib''], console = [SystemError ''EACCES'']\<rparr> ''/ws''"
proof -
  have r: "readdirSync demo_fs ''/ws/lib'' = Inl (SystemError ''EACCES'')"
    by (simp add: demo_fs_def)
  have s: "statSync demo_fs ''/ws/lib'' = Inr True \<and> listed_dir ''lib'' \<and>
           path_join demo_fs ''/ws'' ''lib'' = ''/ws/lib''"
    by (simp add: demo_fs_def listed_dir_def startsWith_def)
  show ?thesis
    using s unreadable_directory_lists_nothing
            [OF r, of "\<lparr>items = [], console = []\<rparr>" "''lib''" 0 "''/ws''" "''lib''" "''/ws''" "[''a.txt'']"]
    by (simp add: console_error_def push_def)
qed

subsection \<open>What a listing contains and in which order\<close>

text \<open>
  C3, as stated, fails. In the example workspace the lazy listing of the root contains
  the file .env, whose name starts with a dot, and the eager list starts with a file,
  followed by a folder, in the order \<open>readdirSync\<close> returned them.
\<close>

theorem listing_counterexample:
  "startsWith ''.env'' ''.'' \<and>
   items (getChildren demo_fs None) =
     [FolderItem ''lib'' ''/ws/lib'', FolderItem ''src'' ''/ws/src'',
      FileItem ''.env'' ''/ws/.env'' ''.env'',
      FileItem ''a.txt'' ''/ws/a.txt'' ''a.txt'',
      FileItem ''b.txt'' ''/ws/b.txt'' ''b.txt''] \<and>
   getFiles 2 demo_fs =
     Some \<lparr>items =
       [FileItem ''b.txt'' ''/ws/b.txt'' ''b.txt'',
        FolderItem ''src'' ''/ws/src'',
        FileItem ''main.ts'' ''/ws/src/main.ts'' ''src/main.ts'',
        FileItem ''.env'' ''/ws/.env'' ''.env'',
        FileItem ''a.txt'' ''/ws/a.txt'' ''a.txt'',
        FolderItem ''lib'' ''/ws/lib''],
       console = [SystemError ''EACCES'']\<rparr>"
proof -
  have "startsWith ''.env'' ''.''"
    by (simp add: startsWith_def)
  with getChildren_demo_fs getFiles_demo_fs show ?thesis by blast
qed

text \<open>
  C3, amended. The name test (not node_modules, not .git, no leading dot) is applied to
  directories only. For every directory that the lazy provider reads without error
  (\<open>readdirSync\<close> and every \<open>statSync\<close> return, a workspace folder is open), the
  listing adds the directories that pass the test, sorted by name, and after them every
  entry that is not a directory, sorted by name, whatever its name. In every case a
  folder node added by the lazy listing, and every folder node of the eager list, has a
  name that passes the test. Nothing is said about the order of the eager list. Names
  are compared character by character, by character code.
\<close>

theorem directory_listing:
  "(readdirSync e dirPath = Inr names \<and> (\<forall>f \<in> set names. stat_ok e dirPath f) \<and>
    workspaceFolder e = Some root \<longrightarrow>
      items (getDirectoryContents e dirPath st) =
        items st @
        map (folder_node e dirPath)
          (sort (filter (\<lambda>f. is_dir e dirPath f \<and> listed_dir f) names)) @
        map (file_node e root dirPath) (sort (filter (is_file e dirPath) names))) \<and>
   (FolderItem label p \<in> set (items (getDirectoryContents e dirPath st)) \<longrightarrow>
      FolderItem label p \<in> set (items st) \<or> listed_dir label) \<and>
   (getFiles n e = Some out \<and> FolderItem label p \<in> set (items out) \<longrightarrow> listed_dir label)"
proof (intro conjI impI)
  assume "readdirSync e dirPath = Inr names \<and> (\<forall>f \<in> set names. stat_ok e dirPath f) \<and>
    workspaceFolder e = Some root"
  then show "items (getDirectoryContents e dirPath st) =
        items st @
        map (folder_node e dirPath)
          (sort (filter (\<lambda>f. is_dir e dirPath f \<and> listed_dir f) names)) @
        map (file_node e root dirPath) (sort (filter (is_file e dirPath) names))"
    by (simp add: items_getDirectoryContents)
next
  assume "FolderItem label p \<in> set (items (getDirectoryContents e dirPath st))"
  then show "FolderItem label p \<in> set (items st) \<or> listed_dir label"
    by (rule lazy_folders_listed)
next
  assume a: "getFiles n e = Some out \<and> FolderItem label p \<in> set (items out)"
  show "listed_dir label"
  proof (cases "workspaceFolder e")
    case None
    with a show ?thesis by (auto simp add: getFiles_def)
  next
    case (Some root)
    with a have "getFilesRecursively n e root \<lparr>items = [], console = []\<rparr> root = Some out"
      by (simp add: getFiles_def)
    from eager_folders_listed(1) [of n e root "\<lparr>items = [], console = []\<rparr>" root out] this a
    show ?thesis by auto
  qed
qed

theorem directory_listing_witness:
  "items (getDirectoryContents demo_fs ''/ws'' \<lparr>items = [], console = []\<rparr>) =
     [FolderItem ''lib'' ''/ws/lib'', FolderItem ''src'' ''/ws/src'',
      FileItem ''.env'' ''/ws/.env'' ''.env'',
      FileItem ''a.txt'' ''/ws/a.txt'' ''a.txt'',
      FileItem ''b.txt'' ''/ws/b.txt'' ''b.txt'']"
proof -
  have r: "readdirSync demo_fs ''/ws'' =
             Inr [''b.txt'', ''src'', ''.env'', ''node_modules'', ''.git'', ''a.txt'', ''lib'']"
    by (simp add: demo_fs_def)
  have s: "\<forall>f \<in> set [''b.txt'', ''src'', ''.env'', ''node_modules'', ''.git'', ''a.txt'', ''lib''].
             stat_ok demo_fs ''/ws'' f"
    by (simp add: stat_ok_def is_dir_def is_file_def demo_fs_def)
  have w: "workspaceFolder demo_fs = Some ''/ws''"
    by (simp add: demo_fs_def)
  have d: "filter (\<lambda>f. is_dir demo_fs ''/ws'' f \<and> listed_dir f)
             [''b.txt'', ''src'', ''.env'', ''node_modules'', ''.git'', ''a.txt'', ''lib''] =
           [''src'', ''lib'']"
    by (simp add: is_dir_def demo_fs_def listed_dir_def startsWith_def)
  have f: "filter (is_file demo_fs ''/ws'')
             [''b.txt'', ''src'', ''.env'', ''node_modules'', ''.git'', ''a.txt'', ''lib''] =
           [''b.txt'', ''.env'', ''a.txt'']"
    by (simp add: is_file_def demo_fs_def)
  have j: "path_join demo_fs = (\<lambda>dir file. dir @ ''/'' @ file)"
    and rel: "path_relative demo_fs = (\<lambda>from to. drop (length from + 1) to)"
    by (simp_all add: demo_fs_def)
  have h: "readdirSync demo_fs ''/ws'' =
             Inr [''b.txt'', ''src'', ''.env'', ''node_modules'', ''.git'', ''a.txt'', ''lib''] \<and>
           (\<forall>f \<in> set [''b.txt'', ''src'', ''.env'', ''node_modules'', ''.git'', ''a.txt'', ''lib''].
             stat_ok demo_fs ''/ws'' f) \<and>
           workspaceFolder demo_fs = Some ''/ws''"
    by (intro conjI) (rule r, rule s, rule w)
  have "items (getDirectoryContents demo_fs ''/ws'' \<lparr>items = [], console = []\<rparr>) =
        items \<lparr>items = [], console = []\<rparr> @
        map (folder_node demo_fs ''/ws'')
          (sort (filter (\<lambda>f. is_dir demo_fs ''/ws'' f \<and> listed_dir f)
             [''b.txt'', ''src'', ''.env'', ''node_modules'', ''.git'', ''a.txt'', ''lib''])) @
        map (file_node demo_fs ''/ws'' ''/ws'')
          (sort (filter (is_file demo_fs ''/ws'')
             [''b.txt'', ''src'', ''.env'', ''node_modules'', ''.git'', ''a.txt'', ''lib'']))"
    by (rule mp [OF conjunct1 [OF directory_listing] h])
  then show ?thesis
    unfolding d f by (simp add: folder_node_def file_node_def j rel)
qed

subsection \<open>The nodes reached lazily from a folder\<close>

lemma lazy_from_subfolder:
  assumes "FolderItem label p \<in> lazy_from e dirPath"
  shows "lazy_from e p \<subseteq> lazy_from e dirPath"
proof
  fix it
  assume "it \<in> lazy_from e p"
  then show "it \<in> lazy_from e dirPath"
  proof (induction rule: lazy_from.induct)
    case (here it)
    with assms show ?case by (rule lazy_from.deeper)
  next
    case (deeper label' p' it)
    then show ?case by (blast intro: lazy_from.deeper)
  qed
qed

lemma lazy_from_split:
  assumes "it \<in> lazy_from e dirPath"
  shows "it \<in> set (items (getFolderContents e dirPath)) \<or>
         (\<exists>label p. FolderItem label p \<in> set (items (getFolderContents e dirPath)) \<and>
            it \<in> lazy_from e p)"
  using assms
proof (induction rule: lazy_from.induct)
  case (here it)
  then show ?case by simp
next
  case (deeper label p it)
  from deeper.IH show ?case
  proof
    assume "FolderItem label p \<in> set (items (getFolderContents e dirPath))"
    moreover from deeper.hyps(2) have "it \<in> lazy_from e p" by (rule lazy_from.here)
    ultimately show ?thesis by blast
  next
    assume "\<exists>label' p'. FolderItem label' p' \<in> set (items (getFolderContents e dirPath)) \<and>
              FolderItem label p \<in> lazy_from e p'"
    then obtain label' p' where
      top: "FolderItem label' p' \<in> set (items (getFolderContents e dirPath))"
      and sub: "FolderItem label p \<in> lazy_from e p'"
      by blast
    from sub deeper.hyps(2) have "it \<in> lazy_from e p'" by (rule lazy_from.deeper)
    with top show ?thesis by blast
  qed
qed

lemma lazy_from_unfold:
  "lazy_from e dirPath =
     set (items (getFolderContents e dirPath)) \<union>
     (\<Union> {lazy_from e p | label p.
           FolderItem label p \<in> set (items (getFolderContents e dirPath))})"
proof (intro set_eqI iffI)
  fix it
  assume "it \<in> lazy_from e dirPath"
  from lazy_from_split [OF this]
  show "it \<in> set (items (getFolderContents e dirPath)) \<union>
     (\<Union> {lazy_from e p | label p.
           FolderItem label p \<in> set (items (getFolderContents e dirPath))})"
    by blast
next
  fix it
  assume "it \<in> set (items (getFolderContents e dirPath)) \<union>
     (\<Union> {lazy_from e p | label p.
           FolderItem label p \<in> set (items (getFolderContents e dirPath))})"
  then show "it \<in> lazy_from e dirPath"
  proof
    assume "it \<in> set (items (getFolderContents e dirPath))"
    then show ?thesis by (rule lazy_from.here)
  next
    assume "it \<in> \<Union> {lazy_from e p | label p.
           FolderItem label p \<in> set (items (getFolderContents e dirPath))}"
    then obtain label p where
      top: "FolderItem label p \<in> set (items (getFolderContents e dirPath))"
      and sub: "it \<in> lazy_from e p"
      by blast
    from top have "FolderItem label p \<in> lazy_from e dirPath" by (rule lazy_from.here)
    from lazy_from_subfolder [OF this] sub show ?thesis by blast
  qed
qed

lemma lazy_from_unreadable:
  "readdirSync e dirPath = Inl err \<Longrightarrow> lazy_from e dirPath = {}"
  by (subst lazy_from_unfold)
     (simp add: getFolderContents_def getDirectoryContents_read_fails)

lemma lazy_from_readable:
  assumes "readdirSync e dirPath = Inr names"
    and "\<forall>f \<in> set names. stat_ok e dirPath f"
    and "workspaceFolder e = Some root"
  shows "lazy_from e dirPath = (\<Union>f \<in> set names. entry_nodes e root dirPath f)"
proof -
  have ex: "\<not> (is_dir e dirPath f \<and> is_file e dirPath f)" for f
    by (simp add: is_dir_def is_file_def)
  have items: "set (items (getFolderContents e dirPath)) =
          folder_node e dirPath ` {f \<in> set names. is_dir e dirPath f \<and> listed_dir f} \<union>
          file_node e root dirPath ` {f \<in> set names. is_file e dirPath f}"
    using items_getDirectoryContents [OF assms, of "\<lparr>items = [], console = []\<rparr>"]
    by (simp add: getFolderContents_def)
  have folders: "FolderItem label p \<in> set (items (getFolderContents e dirPath)) \<longleftrightarrow>
          (label \<in> set names \<and> is_dir e dirPath label \<and> listed_dir label \<and>
           p = path_join e dirPath label)" for label p
    unfolding items by (auto simp add: folder_node_def file_node_def)
  have files: "\<forall>f \<in> set names. \<not> is_dir e dirPath f \<longrightarrow> is_file e dirPath f"
    using assms(2) by (auto simp add: stat_ok_def)
  show ?thesis
    unfolding entry_nodes_def
    by (subst lazy_from_unfold, unfold folders, unfold items)
       (use files ex in \<open>auto simp add: folder_node_def split: if_splits\<close>)
qed

subsection \<open>Trees that can be read to a bounded depth\<close>

lemma readable_within_iff:
  "readable_within n e dirPath \<longleftrightarrow>
     (\<forall>names. readdirSync e dirPath = Inr names \<longrightarrow>
        (\<forall>f \<in> set names.
           stat_ok e dirPath f \<and>
           (is_dir e dirPath f \<and> listed_dir f \<longrightarrow>
              (\<exists>m. n = Suc m \<and> readable_within m e (path_join e dirPath f)))))"
proof (cases "readdirSync e dirPath")
  case (Inl err)
  then show ?thesis by (subst readable_within.simps) simp
next
  case (Inr names)
  have entry:
    "(case statSync e (path_join e dirPath f) of
        Inl err \<Rightarrow> False
      | Inr isDirectory \<Rightarrow>
          if isDirectory \<and> listed_dir f
          then (case n of 0 \<Rightarrow> False
                | Suc m \<Rightarrow> readable_within m e (path_join e dirPath f))
          else True) \<longleftrightarrow>
     (stat_ok e dirPath f \<and>
      (is_dir e dirPath f \<and> listed_dir f \<longrightarrow>
         (\<exists>m. n = Suc m \<and> readable_within m e (path_join e dirPath f))))" for f
    by (cases "statSync e (path_join e dirPath f)"; cases n)
       (auto simp add: stat_ok_def is_dir_def is_file_def)
  show ?thesis
    by (subst readable_within.simps) (simp add: Inr list_all_iff entry)
qed

lemma readable_within_Suc:
  "readable_within n e dirPath \<Longrightarrow> readable_within (Suc n) e dirPath"
proof (induction n arbitrary: dirPath)
  case 0
  show ?case
  proof (subst readable_within_iff, intro allI impI ballI conjI)
    fix names f
    assume r: "readdirSync e dirPath = Inr names" and f: "f \<in> set names"
    from "0.prems" r f
    have ok: "stat_ok e dirPath f" and nd: "\<not> (is_dir e dirPath f \<and> listed_dir f)"
      by (subst (asm) readable_within_iff, blast)+
    show "stat_ok e dirPath f" by (rule ok)
    assume "is_dir e dirPath f \<and> listed_dir f"
    with nd show "\<exists>m. Suc 0 = Suc m \<and> readable_within m e (path_join e dirPath f)"
      by simp
  qed
next
  case (Suc n)
  show ?case
  proof (subst readable_within_iff, intro allI impI ballI conjI)
    fix names f
    assume r: "readdirSync e dirPath = Inr names" and f: "f \<in> set names"
    from Suc.prems r f
    have ok: "stat_ok e dirPath f"
      and sub: "is_dir e dirPath f \<and> listed_dir f \<longrightarrow>
                  readable_within n e (path_join e dirPath f)"
      by (subst (asm) readable_within_iff, blast)+
    show "stat_ok e dirPath f" by (rule ok)
    assume "is_dir e dirPath f \<and> listed_dir f"
    with sub have "readable_within n e (path_join e dirPath f)" by simp
    then have "readable_within (Suc n) e (path_join e dirPath f)" by (rule Suc.IH)
    then show "\<exists>m. Suc (Suc n) = Suc m \<and> readable_within m e (path_join e dirPath f)"
      by simp
  qed
qed

lemma readable_within_mono:
  "readable_within n e dirPath \<Longrightarrow> n \<le> k \<Longrightarrow> readable_within k e dirPath"
proof (induction k)
  case 0
  then show ?case by simp
next
  case (Suc k)
  show ?case
  proof (cases "n = Suc k")
    case True
    with Suc.prems show ?thesis by simp
  next
    case False
    with Suc.prems have "n \<le> k" by simp
    with Suc.prems Suc.IH have "readable_within k e dirPath" by simp
    then show ?thesis by (rule readable_within_Suc)
  qed
qed

subsection \<open>The eager list and the lazy tree\<close>

lemma eager_loop_nodes:
  assumes sub: "\<And>f st. f \<in> set fs \<Longrightarrow> is_dir e dirPath f \<Longrightarrow> listed_dir f \<Longrightarrow>
                  \<exists>st'. getFilesRecursively n e (path_join e dirPath f) st root = Some st' \<and>
                        set (items st') = set (items st) \<union> lazy_from e (path_join e dirPath f)"
    and ok: "\<forall>f \<in> set fs. stat_ok e dirPath f"
  shows "\<exists>st'. getFilesRecursively_loop n e dirPath fs st root = Some st' \<and>
               set (items st') = set (items st) \<union> (\<Union>f \<in> set fs. entry_nodes e root dirPath f)"
  using sub ok
proof (induction fs arbitrary: st)
  case Nil
  then show ?case by simp
next
  case (Cons f fs)
  have sub': "\<And>g st. g \<in> set fs \<Longrightarrow> is_dir e dirPath g \<Longrightarrow> listed_dir g \<Longrightarrow>
                  \<exists>st'. getFilesRecursively n e (path_join e dirPath g) st root = Some st' \<and>
                        set (items st') = set (items st) \<union> lazy_from e (path_join e dirPath g)"
    using Cons.prems(1) by simp
  have ok': "\<forall>g \<in> set fs. stat_ok e dirPath g"
    using Cons.prems(2) by simp
  note IH = Cons.IH [OF sub' ok']
  from Cons.prems(2) have "stat_ok e dirPath f" by simp
  then consider (isfile) "statSync e (path_join e dirPath f) = Inr False"
    | (unlisted) "statSync e (path_join e dirPath f) = Inr True" "\<not> listed_dir f"
    | (listed) "statSync e (path_join e dirPath f) = Inr True" "listed_dir f"
    by (auto simp add: stat_ok_def is_dir_def is_file_def)
  then show ?case
  proof cases
    case isfile
    obtain st' where
      "getFilesRecursively_loop n e dirPath fs (push (file_node e root dirPath f) st) root = Some st'"
      "set (items st') = set (items (push (file_node e root dirPath f) st)) \<union>
         (\<Union>g \<in> set fs. entry_nodes e root dirPath g)"
      using IH [of "push (file_node e root dirPath f) st"] by blast
    with isfile show ?thesis
      by (simp add: entry_nodes_def is_dir_def file_node_def)
  next
    case unlisted
    obtain st' where
      "getFilesRecursively_loop n e dirPath fs st root = Some st'"
      "set (items st') = set (items st) \<union> (\<Union>g \<in> set fs. entry_nodes e root dirPath g)"
      using IH [of st] by blast
    with unlisted show ?thesis
      by (simp add: entry_nodes_def is_dir_def)
  next
    case listed
    then have d: "is_dir e dirPath f" by (simp add: is_dir_def)
    obtain st1 where
      s1: "getFilesRecursively n e (path_join e dirPath f) (push (folder_node e dirPath f) st) root
             = Some st1"
      and i1: "set (items st1) = set (items (push (folder_node e dirPath f) st)) \<union>
                 lazy_from e (path_join e dirPath f)"
      using Cons.prems(1) [of f "push (folder_node e dirPath f) st"] d listed(2) by auto
    obtain st' where
      s2: "getFilesRecursively_loop n e dirPath fs st1 root = Some st'"
      and i2: "set (items st') = set (items st1) \<union> (\<Union>g \<in> set fs. entry_nodes e root dirPath g)"
      using IH [of st1] by blast
    have "getFilesRecursively_loop n e dirPath (f # fs) st root = Some st'"
      using listed s1 s2 by (simp add: folder_node_def)
    moreover have "set (items st') =
        set (items st) \<union> (\<Union>g \<in> set (f # fs). entry_nodes e root dirPath g)"
      using i1 i2 d listed(2) by (auto simp add: entry_nodes_def)
    ultimately show ?thesis by blast
  qed
qed

lemma eager_nodes:
  assumes ws: "workspaceFolder e = Some root"
  shows "readable_within n e dirPath \<Longrightarrow>
         \<exists>st'. getFilesRecursively (Suc n) e dirPath st root = Some st' \<and>
               set (items st') = set (items st) \<union> lazy_from e dirPath"
proof (induction n arbitrary: dirPath st rule: less_induct)
  case (less n)
  show ?case
  proof (cases "readdirSync e dirPath")
    case (Inl err)
    then show ?thesis by (simp add: lazy_from_unreadable)
  next
    case (Inr names)
    from less.prems Inr
    have entries: "\<forall>f \<in> set names. stat_ok e dirPath f \<and>
           (is_dir e dirPath f \<and> listed_dir f \<longrightarrow>
              (\<exists>m. n = Suc m \<and> readable_within m e (path_join e dirPath f)))"
      by (subst (asm) readable_within_iff) blast
    then have ok: "\<forall>f \<in> set names. stat_ok e dirPath f" by blast
    have sub: "\<exists>st'. getFilesRecursively n e (path_join e dirPath f) st root = Some st' \<and>
                  set (items st') = set (items st) \<union> lazy_from e (path_join e dirPath f)"
      if "f \<in> set names" "is_dir e dirPath f" "listed_dir f" for f st
    proof -
      from entries that obtain m where m: "n = Suc m"
        and r: "readable_within m e (path_join e dirPath f)"
        by blast
      from m have "m < n" by simp
      from less.IH [OF this r, of st] m show ?thesis by simp
    qed
    from eager_loop_nodes [of names e dirPath n root st, OF sub ok]
    obtain st' where
      "getFilesRecursively_loop n e dirPath names st root = Some st'"
      "set (items st') = set (items st) \<union> (\<Union>f \<in> set names. entry_nodes e root dirPath f)"
      by blast
    with Inr lazy_from_readable [OF Inr ok ws] show ?thesis by simp
  qed
qed

lemma lazy_nodes_workspace:
  assumes ws: "workspaceFolder e = Some root"
  shows "lazy_nodes e = lazy_from e root"
proof (intro set_eqI iffI)
  fix it
  assume "it \<in> lazy_nodes e"
  then show "it \<in> lazy_from e root"
  proof (induction rule: lazy_nodes.induct)
    case (root it)
    with ws have "it \<in> set (items (getFolderContents e root))"
      by (simp add: getWorkspaceFiles_def getFolderContents_def)
    then show ?case by (rule lazy_from.here)
  next
    case (child parent it)
    show ?case
    proof (cases parent)
      case (FolderItem label p)
      with child.hyps(2) have "it \<in> set (items (getFolderContents e p))" by simp
      with child.IH FolderItem show ?thesis by (blast intro: lazy_from.deeper)
    qed (use child.hyps(2) in simp_all)
  qed
next
  fix it
  assume "it \<in> lazy_from e root"
  then show "it \<in> lazy_nodes e"
  proof (induction rule: lazy_from.induct)
    case (here it)
    with ws have "it \<in> set (items (getChildren e None))"
      by (simp add: getWorkspaceFiles_def getFolderContents_def)
    then show ?case by (rule lazy_nodes.root)
  next
    case (deeper label p it)
    from deeper.hyps(2) have "it \<in> set (items (getChildren e (Some (FolderItem label p))))"
      by simp
    with deeper.IH show ?case by (rule lazy_nodes.child)
  qed
qed

lemma lazy_nodes_empty:
  assumes "items (getChildren e None) = []"
  shows "lazy_nodes e = {}"
proof -
  have "False" if "it \<in> lazy_nodes e" for it
    using that by (induction rule: lazy_nodes.induct) (use assms in simp_all)
  then show ?thesis by blast
qed

text \<open>
  C8, as stated, fails. In a workspace whose second entry cannot be stat'ed, the eager
  list keeps the file item pushed before the failure, while the lazy listing of the
  root, which pushes only after all entries were stat'ed, is empty: the file node is in
  the eager list and not among the nodes reachable lazily.
\<close>

theorem eager_lazy_counterexample:
  "getFiles 1 dangling_fs =
     Some \<lparr>items = [FileItem ''a.txt'' ''/ws/a.txt'' ''a.txt''],
           console = [SystemError ''ENOENT'']\<rparr> \<and>
   getChildren dangling_fs None = \<lparr>items = [], console = [SystemError ''ENOENT'']\<rparr> \<and>
   FileItem ''a.txt'' ''/ws/a.txt'' ''a.txt'' \<notin> lazy_nodes dangling_fs"
proof -
  have eager: "getFiles 1 dangling_fs =
     Some \<lparr>items = [FileItem ''a.txt'' ''/ws/a.txt'' ''a.txt''],
           console = [SystemError ''ENOENT'']\<rparr>"
    by (simp add: getFiles_def dangling_fs_def push_def console_error_def)
  have lazy: "getChildren dangling_fs None = \<lparr>items = [], console = [SystemError ''ENOENT'']\<rparr>"
    by (simp add: getWorkspaceFiles_def getDirectoryContents_def dangling_fs_def
        console_error_def)
  then have "lazy_nodes dangling_fs = {}"
    by (intro lazy_nodes_empty) simp
  with eager lazy show ?thesis by simp
qed

text \<open>
  C8, amended. For every workspace in which, below the root and through listed
  directories, every entry of a readable directory can be stat'ed and directories nest
  at most \<open>n\<close> deep, the eager traversal returns with any call depth beyond \<open>n\<close>, and
  the set of nodes of its flat list is exactly the set of nodes reachable in the lazy
  provider from the root listing by asking for the children of folder nodes.
\<close>

theorem eager_list_matches_lazy_tree:
  assumes "readable_tree n e" and "n < k"
  shows "\<exists>out. getFiles k e = Some out \<and> set (items out) = lazy_nodes e"
proof (cases "workspaceFolder e")
  case None
  then have "lazy_nodes e = {}"
    by (intro lazy_nodes_empty) (simp add: getWorkspaceFiles_def)
  with None show ?thesis by (simp add: getFiles_def)
next
  case (Some root)
  from assms(2) obtain k' where k: "k = Suc k'" and le: "n \<le> k'"
    by (cases k) simp_all
  from assms(1) Some have "readable_within n e root"
    by (simp add: readable_tree_def)
  then have "readable_within k' e root" using le by (rule readable_within_mono)
  from eager_nodes [OF Some this, of "\<lparr>items = [], console = []\<rparr>"]
  obtain out where "getFilesRecursively (Suc k') e root \<lparr>items = [], console = []\<rparr> root = Some out"
    and "set (items out) = lazy_from e root"
    by auto
  with Some k lazy_nodes_workspace [OF Some] show ?thesis
    by (simp add: getFiles_def)
qed

theorem eager_list_matches_lazy_tree_witness:
  "lazy_nodes demo_fs =
     set [FileItem ''b.txt'' ''/ws/b.txt'' ''b.txt'',
          FolderItem ''src'' ''/ws/src'',
          FileItem ''main.ts'' ''/ws/src/main.ts'' ''src/main.ts'',
          FileItem ''.env'' ''/ws/.env'' ''.env'',
          FileItem ''a.txt'' ''/ws/a.txt'' ''a.txt'',
          FolderItem ''lib'' ''/ws/lib'']"
proof -
  have r: "readable_tree 1 demo_fs"
    by (simp add: readable_tree_def demo_fs_def listed_dir_def startsWith_def
        readable_within.simps)
  have k: "(1::nat) < 2" by simp
  from eager_list_matches_lazy_tree [OF r k]
  obtain out where "getFiles 2 demo_fs = Some out" and "set (items out) = lazy_nodes demo_fs"
    by blast
  with getFiles_demo_fs show ?thesis by auto
qed

end
